theory Spec2Isabelle
  imports Main "HOL-Library.Sublist"
begin

section \<open>Python values of the PyNUT client\<close>

text \<open>
  The module \<^verbatim>\<open>scripts/python/module/PyNUT_Py3.py\<close> is a Python 3 client of the
  NUT \<^verbatim>\<open>upsd\<close> server. It talks to a \<^verbatim>\<open>telnetlib.Telnet\<close> object through two
  calls, \<^verbatim>\<open>write\<close> and \<^verbatim>\<open>read_until\<close>, and mixes two Python types freely:
  \<^verbatim>\<open>str\<close> (text) and \<^verbatim>\<open>bytes\<close>. Both are modelled as \<open>string\<close> (a list of
  8-bit characters); a character of code 128 or more in a \<^verbatim>\<open>str\<close> stands for any
  non-ASCII code point. Where the source passes a value whose Python type decides what
  happens (the argument of \<^verbatim>\<open>write\<close>, the delimiter of \<^verbatim>\<open>read_until\<close>, an
  operand of \<^verbatim>\<open>!=\<close>), the value carries its type as a constructor of \<open>pyval\<close>.
\<close>

abbreviation NL :: char where "NL \<equiv> CHR 0x0A"
abbreviation DQ :: char where "DQ \<equiv> CHR 0x22"
abbreviation SP :: char where "SP \<equiv> CHR 0x20"

datatype pyval = Str string | Bytes string

text \<open>
  The arguments of a raised \<^verbatim>\<open>PyNUTError\<close>: a string, or (in \<^verbatim>\<open>FSD\<close>) one tuple
  of strings. \<^verbatim>\<open>raise PyNUTError\<close> without a call has no argument.
\<close>

datatype exc_arg = ArgStr string | ArgTuple "string list"

datatype pyerror =
    PyNUTError "exc_arg list"
  | TypeError
  | AttributeError
  | IndexError
  | ValueError
  | KeyError
  | UnicodeEncodeError
  | UnicodeDecodeError
  | EOFError

subsection \<open>Text and bytes\<close>

definition is_ascii :: "string \<Rightarrow> bool" where
  "is_ascii s = list_all (\<lambda>c. of_char c < (128::nat)) s"

text \<open>\<^verbatim>\<open>s.encode('ascii')\<close>: raises on a character outside ASCII.\<close>

definition encode :: "string \<Rightarrow> pyerror + string" where
  "encode s = (if is_ascii s then Inr s else Inl UnicodeEncodeError)"

text \<open>\<^verbatim>\<open>b.decode('ascii')\<close>: raises on a byte of value 128 or more.\<close>

definition decode :: "string \<Rightarrow> pyerror + string" where
  "decode b = (if is_ascii b then Inr b else Inl UnicodeDecodeError)"

text \<open>\<^verbatim>\<open>s.split(sep)\<close> for a separator of one character: never an empty list.\<close>

fun py_split :: "char \<Rightarrow> string \<Rightarrow> string list" where
  "py_split sep [] = [[]]"
| "py_split sep (c # cs) =
     (if c = sep then [] # py_split sep cs
      else (case py_split sep cs of
              [] \<Rightarrow> [[c]]
            | w # ws \<Rightarrow> (c # w) # ws))"

text \<open>\<^verbatim>\<open>s.replace(c, "")\<close> for a one-character \<^verbatim>\<open>c\<close>.\<close>

definition py_remove :: "char \<Rightarrow> string \<Rightarrow> string" where
  "py_remove c s = filter (\<lambda>x. x \<noteq> c) s"

text \<open>\<^verbatim>\<open>xs[i]\<close> for \<^verbatim>\<open>i >= 0\<close>: IndexError out of range.\<close>

definition index :: "'a list \<Rightarrow> nat \<Rightarrow> pyerror + 'a" where
  "index xs i = (if i < length xs then Inr (xs ! i) else Inl IndexError)"

text \<open>\<^verbatim>\<open>a, b = xs\<close>: ValueError unless \<^verbatim>\<open>xs\<close> has exactly two elements.\<close>

definition unpack2 :: "'a list \<Rightarrow> pyerror + ('a \<times> 'a)" where
  "unpack2 xs = (case xs of [a, b] \<Rightarrow> Inr (a, b) | _ \<Rightarrow> Inl ValueError)"

text \<open>
  \<^verbatim>\<open>str(b)\<close> of a bytes object, which is what \<^verbatim>\<open>"%s" % b\<close> inserts into a
  \<^verbatim>\<open>str\<close> template: the literal \<^verbatim>\<open>b'...'\<close> with Python's escapes.
\<close>

definition hexdigit :: "nat \<Rightarrow> char" where
  "hexdigit n = ''0123456789abcdef'' ! (n mod 16)"

definition bytes_repr_char :: "char \<Rightarrow> char \<Rightarrow> string" where
  "bytes_repr_char quote c =
     (if c = quote \<or> c = CHR 0x5C then [CHR 0x5C, c]
      else if c = CHR 0x09 then [CHR 0x5C, CHR ''t'']
      else if c = NL then [CHR 0x5C, CHR ''n'']
      else if c = CHR 0x0D then [CHR 0x5C, CHR ''r'']
      else if of_char c < (32::nat) \<or> (127::nat) \<le> of_char c
        then [CHR 0x5C, CHR ''x'', hexdigit (of_char c div 16), hexdigit (of_char c)]
      else [c])"

definition bytes_repr :: "string \<Rightarrow> string" where
  "bytes_repr b =
     (let quote = (if CHR 0x27 \<in> set b \<and> DQ \<notin> set b then DQ else CHR 0x27)
      in ''b'' @ [quote] @ concat (map (bytes_repr_char quote) b) @ [quote])"

subsection \<open>Dictionaries\<close>

text \<open>
  A \<^verbatim>\<open>dict\<close> is an association list in insertion order with unique keys;
  \<^verbatim>\<open>d[k] = v\<close> overwrites in place or appends, \<^verbatim>\<open>k in d\<close> is \<open>dict_has\<close>.
\<close>

fun dict_set :: "'k \<Rightarrow> 'v \<Rightarrow> ('k \<times> 'v) list \<Rightarrow> ('k \<times> 'v) list" where
  "dict_set k v [] = [(k, v)]"
| "dict_set k v ((k', v') # d) =
     (if k' = k then (k', v) # d else (k', v') # dict_set k v d)"

definition dict_has :: "'k \<Rightarrow> ('k \<times> 'v) list \<Rightarrow> bool" where
  "dict_has k d = (map_of d k \<noteq> None)"

section \<open>The session transport\<close>

text \<open>
  The \<^verbatim>\<open>telnetlib.Telnet\<close> handler of the class, as far as the client can observe
  it: \<open>sent\<close> is the log of the buffers handed to the socket, one per successful
  \<^verbatim>\<open>write\<close>, and \<open>inbox\<close> is the stream of bytes the server delivers from now on.
  Both calls are typed on bytes: \<^verbatim>\<open>write\<close> evaluates \<^verbatim>\<open>IAC in buffer\<close> and
  \<^verbatim>\<open>read_until\<close> evaluates \<^verbatim>\<open>self.cookedq.find(match)\<close>, and either raises
  TypeError on a \<^verbatim>\<open>str\<close> before anything is sent or consumed. \<^verbatim>\<open>read_until\<close>
  returns the stream up to and including the first occurrence of the delimiter. The
  \<open>inbox\<close> is the whole of what the server will ever send: where it ends the
  connection is closed, and a read that finds no delimiter before that is a transport
  failure. Telnet option bytes are below this interface.
\<close>

record session =
  sent :: "string list"
  inbox :: string

type_synonym 'a io = "session \<Rightarrow> (pyerror + 'a) \<times> session"

definition io_return :: "'a \<Rightarrow> 'a io" where
  "io_return x st = (Inr x, st)"

definition io_raise :: "pyerror \<Rightarrow> 'a io" where
  "io_raise e st = (Inl e, st)"

definition io_of :: "pyerror + 'a \<Rightarrow> 'a io" where
  "io_of r st = (r, st)"

definition io_bind :: "'a io \<Rightarrow> ('a \<Rightarrow> 'b io) \<Rightarrow> 'b io" where
  "io_bind m f st =
     (case m st of
        (Inl e, st') \<Rightarrow> (Inl e, st')
      | (Inr x, st') \<Rightarrow> f x st')"

text \<open>A bare \<^verbatim>\<open>try: ... except: ...\<close>: the handler sees every exception.\<close>

definition io_try :: "'a io \<Rightarrow> (pyerror \<Rightarrow> 'a io) \<Rightarrow> 'a io" where
  "io_try m h st =
     (case m st of
        (Inl e, st') \<Rightarrow> h e st'
      | (Inr x, st') \<Rightarrow> (Inr x, st'))"

fun read_upto :: "string \<Rightarrow> string \<Rightarrow> (string \<times> string) option" where
  "read_upto m [] = (if m = [] then Some ([], []) else None)"
| "read_upto m (c # cs) =
     (if prefix m (c # cs) then Some (m, drop (length m) (c # cs))
      else (case read_upto m cs of
              None \<Rightarrow> None
            | Some (buf, rest) \<Rightarrow> Some (c # buf, rest)))"

definition srv_write :: "pyval \<Rightarrow> unit io" where
  "srv_write buffer st =
     (case buffer of
        Bytes b \<Rightarrow> (Inr (), st\<lparr>sent := sent st @ [b]\<rparr>)
      | Str s \<Rightarrow> (Inl TypeError, st))"

definition srv_read_until :: "pyval \<Rightarrow> string io" where
  "srv_read_until match st =
     (case match of
        Str s \<Rightarrow> (Inl TypeError, st)
      | Bytes m \<Rightarrow>
          (case read_upto m (inbox st) of
             Some (buf, rest) \<Rightarrow> (Inr buf, st\<lparr>inbox := rest\<rparr>)
           | None \<Rightarrow> (Inl EOFError, st\<lparr>inbox := []\<rparr>)))"

section \<open>The operations of PyNUTClient\<close>

text \<open>
  One definition per method, statement by statement. The debug prints are left out (they
  only write to the console). A slice \<^verbatim>\<open>s[:n]\<close> is \<open>take n s\<close>, \<^verbatim>\<open>s[n:]\<close> is
  \<open>drop n s\<close>, and a slice with a negative end \<^verbatim>\<open>s[:-k]\<close> is
  \<open>take (length s - k) s\<close>: Python clamps the end at 0 as subtraction on \<open>nat\<close> does.
  The \<^verbatim>\<open>return\<close> that closes \<^verbatim>\<open>ListClients\<close> (line 320) is indented by seven
  columns where the method body has eight; it is read as the last statement of the method.
\<close>

subsection \<open>GetUPSList\<close>

type_synonym dict = "(string \<times> string) list"

fun ups_loop :: "string list \<Rightarrow> dict \<Rightarrow> pyerror + dict" where
  "ups_loop [] ups_list = Inr ups_list"
| "ups_loop (line # lines) ups_list =
     (if take 3 line = ''UPS'' then
        (case unpack2 (py_split DQ (drop 4 (take (length line - 1) line))) of
           Inl e \<Rightarrow> Inl e
         | Inr (ups, desc) \<Rightarrow> ups_loop lines (dict_set (py_remove SP ups) desc ups_list))
      else ups_loop lines ups_list)"

definition GetUPSList :: "dict io" where
  "GetUPSList =
     io_bind (srv_write (Bytes ''LIST UPS\<newline>'')) (\<lambda>_.
     io_bind (srv_read_until (Bytes ''\<newline>'')) (\<lambda>raw.
     io_bind (io_of (decode raw)) (\<lambda>result.
     if result \<noteq> ''BEGIN LIST UPS\<newline>''
     then io_raise (PyNUTError [ArgStr (py_remove NL result)])
     else
     io_bind (srv_read_until (Bytes ''END LIST UPS\<newline>'')) (\<lambda>raw.
     io_bind (io_of (decode raw)) (\<lambda>result.
     io_of (ups_loop (py_split NL result) []))))))"

subsection \<open>GetUPSVars and GetRWVars\<close>

text \<open>
  Both methods run the same loop body over the lines of the list block (lines 142-145 and
  206-209). The loop mutates the dictionary in place, so when an index is out of range the
  dictionary built so far survives the exception: \<open>var_loop\<close> returns it together with
  the exception, if any.
\<close>

fun var_loop :: "nat \<Rightarrow> string list \<Rightarrow> dict \<Rightarrow> pyerror option \<times> dict" where
  "var_loop offset [] vars = (None, vars)"
| "var_loop offset (current # rest) vars =
     (case index (py_split DQ (drop offset current)) 0 of
        Inl e \<Rightarrow> (Some e, vars)
      | Inr name \<Rightarrow>
          (case index (py_split DQ (drop offset current)) 1 of
             Inl e \<Rightarrow> (Some e, vars)
           | Inr data \<Rightarrow> var_loop offset rest (dict_set (py_remove SP name) data vars)))"

text \<open>\<^verbatim>\<open>GetUPSVars\<close> returns either the string \<^verbatim>\<open>"ERR"\<close> or a dictionary.\<close>

datatype ups_vars = VarsStr string | VarsDict dict

definition GetUPSVars :: "string \<Rightarrow> ups_vars io" where
  "GetUPSVars ups =
     io_bind (io_of (encode ups)) (\<lambda>ups_ascii.
     io_bind (srv_write (Bytes (''LIST VAR '' @ ups_ascii @ ''\<newline>''))) (\<lambda>_.
     io_bind (srv_read_until (Bytes ''\<newline>'')) (\<lambda>raw.
     io_bind (io_of (decode raw)) (\<lambda>result.
     if result \<noteq> ''BEGIN LIST VAR '' @ ups @ ''\<newline>''
     then io_return (VarsStr ''ERR'')
     else
     io_bind (srv_read_until (Bytes (''END LIST VAR '' @ ups_ascii @ ''\<newline>''))) (\<lambda>raw.
     io_bind (io_of (decode raw)) (\<lambda>result.
     let offset = length (''VAR '' @ ups @ '' '');
         end_offset = length (''END LIST VAR '' @ ups @ ''\<newline>'') + 1
     in (case var_loop offset (py_split NL (take (length result - end_offset) result)) [] of
           (Some e, ups_vars) \<Rightarrow> io_raise e
         | (None, ups_vars) \<Rightarrow> io_return (VarsDict ups_vars))))))))"

text \<open>
  In \<^verbatim>\<open>GetRWVars\<close> the whole \<^verbatim>\<open>for\<close> loop stands inside one
  \<^verbatim>\<open>try: ... except: pass\<close>, and the prefix length has no trailing space.
\<close>

definition GetRWVars :: "string \<Rightarrow> dict io" where
  "GetRWVars ups =
     io_bind (io_of (encode ups)) (\<lambda>ups_ascii.
     io_bind (srv_write (Bytes (''LIST RW '' @ ups_ascii @ ''\<newline>''))) (\<lambda>_.
     io_bind (srv_read_until (Bytes ''\<newline>'')) (\<lambda>raw.
     io_bind (io_of (decode raw)) (\<lambda>result.
     if result \<noteq> ''BEGIN LIST RW '' @ ups @ ''\<newline>''
     then io_raise (PyNUTError [ArgStr (py_remove NL result)])
     else
     io_bind (srv_read_until (Bytes (''END LIST RW '' @ ups_ascii @ ''\<newline>''))) (\<lambda>raw.
     io_bind (io_of (decode raw)) (\<lambda>result.
     let offset = length (''VAR '' @ ups);
         end_offset = length (''END LIST RW '' @ ups @ ''\<newline>'') + 1
     in (case var_loop offset (py_split NL (take (length result - end_offset) result)) [] of
           (_, rw_vars) \<Rightarrow> io_return rw_vars)))))))"

subsection \<open>GetUPSCommands\<close>

text \<open>
  The body of the \<^verbatim>\<open>try\<close> of lines 173-179. \<^verbatim>\<open>temp\<close> is the undecoded
  \<^verbatim>\<open>bytes\<close> of the reply and \<^verbatim>\<open>"CMDDESC"\<close> a \<^verbatim>\<open>str\<close>; values of the two
  types are never equal. In the \<^verbatim>\<open>else\<close> branch \<^verbatim>\<open>temp[off:-1].split('"')\<close>
  splits bytes on a \<^verbatim>\<open>str\<close>, which is a TypeError.
\<close>

definition cmddesc :: "string \<Rightarrow> string \<Rightarrow> string \<Rightarrow> string io" where
  "cmddesc ups ups_ascii var =
     io_bind (io_of (encode var)) (\<lambda>var_ascii.
     io_bind (srv_write (Bytes (''GET CMDDESC '' @ ups_ascii @ var_ascii @ ''\<newline>''))) (\<lambda>_.
     io_bind (srv_read_until (Bytes ''\<newline>'')) (\<lambda>temp.
     if Bytes (take 7 temp) \<noteq> Str ''CMDDESC'' then io_raise (PyNUTError [])
     else io_raise TypeError)))"

fun cmd_loop :: "string \<Rightarrow> string \<Rightarrow> nat \<Rightarrow> string list \<Rightarrow> dict \<Rightarrow> dict io" where
  "cmd_loop ups ups_ascii offset [] ups_cmds st = (Inr ups_cmds, st)"
| "cmd_loop ups ups_ascii offset (current # rest) ups_cmds st =
     (case index (py_split DQ (drop offset current)) 0 of
        Inl e \<Rightarrow> (Inl e, st)
      | Inr name \<Rightarrow>
          (let var = py_remove SP name in
           case io_try (cmddesc ups ups_ascii var) (\<lambda>e. io_return var) st of
             (Inl e, st') \<Rightarrow> (Inl e, st')
           | (Inr desc, st') \<Rightarrow>
               cmd_loop ups ups_ascii offset rest (dict_set var desc ups_cmds) st'))"

definition GetUPSCommands :: "string \<Rightarrow> dict io" where
  "GetUPSCommands ups =
     io_bind (io_of (encode ups)) (\<lambda>ups_ascii.
     io_bind (srv_write (Bytes (''LIST CMD '' @ ups_ascii @ ''\<newline>''))) (\<lambda>_.
     io_bind (srv_read_until (Bytes ''\<newline>'')) (\<lambda>raw.
     io_bind (io_of (decode raw)) (\<lambda>result.
     if result \<noteq> ''BEGIN LIST CMD '' @ ups @ ''\<newline>''
     then io_raise (PyNUTError [ArgStr (py_remove NL result)])
     else
     io_bind (srv_read_until (Bytes (''END LIST CMD '' @ ups_ascii @ ''\<newline>''))) (\<lambda>raw.
     io_bind (io_of (decode raw)) (\<lambda>result.
     let offset = length (''CMD '' @ ups @ '' '');
         end_offset = length (''END LIST CMD '' @ ups @ ''\<newline>'') + 1
     in cmd_loop ups ups_ascii offset
          (py_split NL (take (length result - end_offset) result)) []))))))"

subsection \<open>SetRWVar, RunUPSCommand, FSD, help, ver\<close>

definition SetRWVar :: "string \<Rightarrow> string \<Rightarrow> string \<Rightarrow> string io" where
  "SetRWVar ups var val =
     io_bind (io_of (encode ups)) (\<lambda>ups.
     io_bind (io_of (encode var)) (\<lambda>var.
     io_bind (io_of (encode val)) (\<lambda>val.
     io_bind (srv_write (Bytes (''SET VAR '' @ ups @ '' '' @ var @ '' '' @ val @ ''\<newline>''))) (\<lambda>_.
     io_bind (srv_read_until (Bytes ''\<newline>'')) (\<lambda>raw.
     io_bind (io_of (decode raw)) (\<lambda>result.
     if result = ''OK\<newline>'' then io_return ''OK''
     else io_raise (PyNUTError [ArgStr result])))))))"

text \<open>
  \<^verbatim>\<open>RunUPSCommand\<close> (lines 231-246) has the same shape, but raises
  \<^verbatim>\<open>result.replace("\n", "")\<close>.
\<close>

definition RunUPSCommand :: "string \<Rightarrow> string \<Rightarrow> string io" where
  "RunUPSCommand ups command =
     io_bind (io_of (encode ups)) (\<lambda>ups.
     io_bind (io_of (encode command)) (\<lambda>command.
     io_bind (srv_write (Bytes (''INSTCMD '' @ ups @ '' '' @ command @ ''\<newline>''))) (\<lambda>_.
     io_bind (srv_read_until (Bytes ''\<newline>'')) (\<lambda>raw.
     io_bind (io_of (decode raw)) (\<lambda>result.
     if result = ''OK\<newline>'' then io_return ''OK''
     else io_raise (PyNUTError [ArgStr (py_remove NL result)]))))))"

text \<open>
  \<^verbatim>\<open>FSD\<close> writes the \<^verbatim>\<open>MASTER\<close> line as bytes, and the \<^verbatim>\<open>FSD\<close> line as the
  \<^verbatim>\<open>str\<close> \<^verbatim>\<open>"FSD %s\n" % ups_ascii\<close>, whose \<^verbatim>\<open>%s\<close> is \<^verbatim>\<open>str(ups_ascii)\<close>.
\<close>

definition FSD :: "string \<Rightarrow> string io" where
  "FSD ups =
     io_bind (io_of (encode ups)) (\<lambda>ups_ascii.
     io_bind (srv_write (Bytes (''MASTER '' @ ups_ascii @ ''\<newline>''))) (\<lambda>_.
     io_bind (srv_read_until (Bytes ''\<newline>'')) (\<lambda>raw.
     io_bind (io_of (decode raw)) (\<lambda>result.
     if result \<noteq> ''OK MASTER-GRANTED\<newline>''
     then io_raise (PyNUTError [ArgTuple [''Master level function are not available'', []]])
     else
     io_bind (srv_write (Str (''FSD '' @ bytes_repr ups_ascii @ ''\<newline>''))) (\<lambda>_.
     io_bind (srv_read_until (Bytes ''\<newline>'')) (\<lambda>raw.
     io_bind (io_of (decode raw)) (\<lambda>result.
     if result = ''OK FSD-SET\<newline>'' then io_return ''OK''
     else io_raise (PyNUTError [ArgStr (py_remove NL result)]))))))))"

text \<open>\<^verbatim>\<open>help\<close> passes the delimiter as bytes, \<^verbatim>\<open>ver\<close> as a \<^verbatim>\<open>str\<close>.\<close>

definition help_op :: "string io" where
  "help_op =
     io_bind (srv_write (Bytes ''HELP\<newline>'')) (\<lambda>_.
     io_bind (srv_read_until (Bytes ''\<newline>'')) (\<lambda>raw.
     io_of (decode raw)))"

definition ver :: "string io" where
  "ver =
     io_bind (srv_write (Bytes ''VER\<newline>'')) (\<lambda>_.
     io_bind (srv_read_until (Str ''\<newline>'')) (\<lambda>raw.
     io_of (decode raw)))"

subsection \<open>ListClients\<close>

text \<open>
  The parameter defaults to \<^verbatim>\<open>None\<close>, and the first statement calls
  \<^verbatim>\<open>ups.encode('ascii')\<close> on it whatever it is. \<^verbatim>\<open>None\<close> and the empty string
  are both false in the two \<^verbatim>\<open>if ups\<close> tests. The statement
  \<^verbatim>\<open>ups.replace(' ', '')\<close> in the loop discards its result.
\<close>

type_synonym clients = "(string \<times> string list) list"

fun clients_loop :: "string list \<Rightarrow> clients \<Rightarrow> pyerror + clients" where
  "clients_loop [] ups_list = Inr ups_list"
| "clients_loop (line # lines) ups_list =
     (if take 6 line = ''CLIENT'' then
        (case unpack2 (py_split SP (drop 7 line)) of
           Inl e \<Rightarrow> Inl e
         | Inr (host, ups) \<Rightarrow>
             (let ups_list = (if \<not> dict_has ups ups_list then dict_set ups [] ups_list
                              else ups_list)
              in case map_of ups_list ups of
                   None \<Rightarrow> Inl KeyError
                 | Some hosts \<Rightarrow> clients_loop lines (dict_set ups (hosts @ [host]) ups_list)))
      else clients_loop lines ups_list)"

definition ListClients :: "string option \<Rightarrow> clients io" where
  "ListClients ups =
     (case ups of
        None \<Rightarrow> io_raise AttributeError
      | Some u \<Rightarrow>
          io_bind (io_of (encode u)) (\<lambda>ups_ascii.
          io_bind (if u \<noteq> [] then io_bind GetUPSList (\<lambda>ups_list. io_return (\<not> dict_has u ups_list))
                   else io_return False) (\<lambda>unknown.
          if unknown then io_raise (PyNUTError [ArgStr (u @ '' is not a valid UPS'')])
          else
          io_bind (if u \<noteq> [] then srv_write (Bytes (''LIST CLIENTS '' @ ups_ascii @ ''\<newline>''))
                   else srv_write (Bytes ''LIST CLIENTS\<newline>'')) (\<lambda>_.
          io_bind (srv_read_until (Bytes ''\<newline>'')) (\<lambda>raw.
          io_bind (io_of (decode raw)) (\<lambda>result.
          if result \<noteq> ''BEGIN LIST CLIENTS\<newline>''
          then io_raise (PyNUTError [ArgStr (py_remove NL result)])
          else
          io_bind (srv_read_until (Bytes ''END LIST CLIENTS\<newline>'')) (\<lambda>raw.
          io_bind (io_of (decode raw)) (\<lambda>result.
          io_of (clients_loop (py_split NL result) [])))))))))"

section \<open>List blocks on the wire\<close>

text \<open>
  The bytes of a list block as \<^verbatim>\<open>upsd\<close> sends it: the line \<^verbatim>\<open>BEGIN LIST <kind>\<close>,
  the body lines, the line \<^verbatim>\<open>END LIST <kind>\<close>, each terminated by a newline.
  A block is \<open>framed\<close> when it is ASCII, no line contains a newline and no body line ends
  with the text of the END line, so that the END line of the block is the first one in
  the stream.
\<close>

definition body_bytes :: "string list \<Rightarrow> string" where
  "body_bytes body = concat (map (\<lambda>l. l @ [NL]) body)"

definition list_block :: "string \<Rightarrow> string list \<Rightarrow> string" where
  "list_block kind body =
     ''BEGIN LIST '' @ kind @ [NL] @ body_bytes body @ ''END LIST '' @ kind @ [NL]"

definition framed :: "string \<Rightarrow> string list \<Rightarrow> bool" where
  "framed kind body =
     (is_ascii kind \<and> NL \<notin> set kind \<and>
      list_all (\<lambda>l. is_ascii l \<and> NL \<notin> set l \<and> \<not> suffix (''END LIST '' @ kind) l) body)"

text \<open>
  A record line \<^verbatim>\<open>VAR <dev> <name> "<value>"\<close> of a \<^verbatim>\<open>LIST VAR\<close> or
  \<^verbatim>\<open>LIST RW\<close> block, for a pair of a name without spaces or quotes and a value
  without quotes, and the dictionary that assigning such pairs in order builds.
\<close>

definition var_line :: "string \<Rightarrow> string \<times> string \<Rightarrow> string" where
  "var_line ups p = ''VAR '' @ ups @ '' '' @ fst p @ '' '' @ [DQ] @ snd p @ [DQ]"

definition clean_pair :: "string \<times> string \<Rightarrow> bool" where
  "clean_pair p = (DQ \<notin> set (fst p) \<and> SP \<notin> set (fst p) \<and> DQ \<notin> set (snd p))"

definition var_pairs :: "dict \<Rightarrow> (string \<times> string) list \<Rightarrow> dict" where
  "var_pairs d ps = foldl (\<lambda>d p. dict_set (fst p) (snd p) d) d ps"

text \<open>
  The key that line 169 computes from a body line of a \<^verbatim>\<open>LIST CMD\<close> block
  (\<^verbatim>\<open>split\<close> never returns an empty list, so its element 0 is \<open>hd\<close>), and the
  dictionary that maps each such key to itself.
\<close>

definition cmd_name :: "string \<Rightarrow> string \<Rightarrow> string" where
  "cmd_name ups current =
     py_remove SP (hd (py_split DQ (drop (length (''CMD '' @ ups @ '' '')) current)))"

definition cmd_names :: "string \<Rightarrow> dict \<Rightarrow> string list \<Rightarrow> dict" where
  "cmd_names ups d ls = foldl (\<lambda>d l. dict_set (cmd_name ups l) (cmd_name ups l) d) d ls"

section \<open>Reading one line\<close>

lemmas io_defs = io_bind_def io_return_def io_raise_def io_of_def io_try_def

lemma read_upto_line:
  "NL \<notin> set l \<Longrightarrow> read_upto [NL] (l @ NL # rest) = Some (l @ [NL], rest)"
  by (induction l) auto

lemma read_until_line:
  "NL \<notin> set l \<Longrightarrow> inbox st = l @ NL # rest \<Longrightarrow>
   srv_read_until (Bytes [NL]) st = (Inr (l @ [NL]), st\<lparr>inbox := rest\<rparr>)"
  by (simp add: srv_read_until_def read_upto_line)

lemma is_ascii_append [simp]: "is_ascii (a @ b) = (is_ascii a \<and> is_ascii b)"
  by (simp add: is_ascii_def)

lemma is_ascii_Cons [simp]: "is_ascii (c # s) = (of_char c < (128::nat) \<and> is_ascii s)"
  by (simp add: is_ascii_def)

lemma is_ascii_Nil [simp]: "is_ascii []"
  by (simp add: is_ascii_def)

section \<open>Single-line operations\<close>

text \<open>
  \<^verbatim>\<open>SetRWVar\<close> writes \<^verbatim>\<open>SET VAR <dev> <name> <value>\<close> and reads one line.
  For ASCII arguments and an ASCII reply line \<open>l\<close> (terminated by a newline), it returns
  the confirmation \<^verbatim>\<open>"OK"\<close> exactly when the line is \<^verbatim>\<open>OK\<close>, and otherwise
  raises PyNUTError with the reply as read, which is the line with its newline.
\<close>

lemma SetRWVar_result:
  assumes "is_ascii ups" and "is_ascii var" and "is_ascii val"
    and "inbox st = l @ [NL] @ rest" and "NL \<notin> set l" and "is_ascii l"
  shows "SetRWVar ups var val st =
           (if l = ''OK'' then Inr ''OK'' else Inl (PyNUTError [ArgStr (l @ [NL])]),
            st\<lparr>sent := sent st @ [''SET VAR '' @ ups @ '' '' @ var @ '' '' @ val @ [NL]],
               inbox := rest\<rparr>)"
  using assms
  by (simp add: SetRWVar_def io_defs srv_write_def read_until_line decode_def encode_def)

text \<open>
  C7. \<^verbatim>\<open>SetRWVar\<close> answered with \<^verbatim>\<open>ERR INVALID-VALUE\<close> and a newline (the
  spec's scenario B): the request is written, the line is consumed, and the PyNUTError
  raised carries the eighteen characters of the reply, newline included, and not the
  seventeen characters \<^verbatim>\<open>ERR INVALID-VALUE\<close>.
\<close>

theorem SetRWVar_error_keeps_newline:
  "SetRWVar ''ups1'' ''battery.charge.low'' ''20''
       \<lparr>sent = s, inbox = ''ERR INVALID-VALUE\<newline>'' @ rest\<rparr>
     = (Inl (PyNUTError [ArgStr ''ERR INVALID-VALUE\<newline>'']),
        \<lparr>sent = s @ [''SET VAR ups1 battery.charge.low 20\<newline>''], inbox = rest\<rparr>)"
  by (simp add: SetRWVar_def io_defs srv_write_def srv_read_until_def decode_def encode_def)

text \<open>
  The sibling \<^verbatim>\<open>RunUPSCommand\<close> on the same reply carries the line without its
  newline, as every other raise of a server line in the class does.
\<close>

lemma RunUPSCommand_error_stripped:
  "RunUPSCommand ''ups1'' ''beeper.on''
       \<lparr>sent = s, inbox = ''ERR INVALID-VALUE\<newline>'' @ rest\<rparr>
     = (Inl (PyNUTError [ArgStr ''ERR INVALID-VALUE'']),
        \<lparr>sent = s @ [''INSTCMD ups1 beeper.on\<newline>''], inbox = rest\<rparr>)"
  by (simp add: RunUPSCommand_def io_defs srv_write_def srv_read_until_def decode_def encode_def
      py_remove_def)

text \<open>The success half of scenario B.\<close>

lemma SetRWVar_ok:
  "SetRWVar ''ups1'' ''battery.charge.low'' ''20'' \<lparr>sent = s, inbox = ''OK\<newline>'' @ rest\<rparr>
     = (Inr ''OK'', \<lparr>sent = s @ [''SET VAR ups1 battery.charge.low 20\<newline>''], inbox = rest\<rparr>)"
  by (simp add: SetRWVar_def io_defs srv_write_def srv_read_until_def decode_def encode_def)

text \<open>
  C8. \<^verbatim>\<open>ver\<close> writes \<^verbatim>\<open>VER\<close> and then calls \<^verbatim>\<open>read_until("\n")\<close> with a
  \<^verbatim>\<open>str\<close> delimiter: on every session it raises TypeError after the request has been
  sent, and never returns the server's line.
\<close>

theorem ver_raises_TypeError:
  "ver st = (Inl TypeError, st\<lparr>sent := sent st @ [''VER\<newline>'']\<rparr>)"
  by (simp add: ver_def io_defs srv_write_def srv_read_until_def)

text \<open>The sibling \<^verbatim>\<open>help\<close>, with a bytes delimiter, returns the ASCII line it reads.\<close>

lemma help_op_returns_line:
  assumes "inbox st = l @ [NL] @ rest" and "NL \<notin> set l" and "is_ascii l"
  shows "help_op st = (Inr (l @ [NL]), st\<lparr>sent := sent st @ [''HELP\<newline>''], inbox := rest\<rparr>)"
  using assms
  by (simp add: help_op_def io_defs srv_write_def read_until_line decode_def)

text \<open>
  C2. \<^verbatim>\<open>FSD\<close> on device \<^verbatim>\<open>dev1\<close>, when the server grants \<^verbatim>\<open>MASTER\<close> and would
  answer \<^verbatim>\<open>OK FSD-SET\<close>: the second \<^verbatim>\<open>write\<close> is handed a \<^verbatim>\<open>str\<close> and raises
  TypeError, so only the \<^verbatim>\<open>MASTER\<close> line is sent, the server's second line stays
  unread and no confirmation is returned.
\<close>

theorem FSD_granted_raises_TypeError:
  "FSD ''dev1'' \<lparr>sent = s, inbox = ''OK MASTER-GRANTED\<newline>OK FSD-SET\<newline>'' @ rest\<rparr>
     = (Inl TypeError,
        \<lparr>sent = s @ [''MASTER dev1\<newline>''], inbox = ''OK FSD-SET\<newline>'' @ rest\<rparr>)"
  by (simp add: FSD_def io_defs srv_write_def srv_read_until_def decode_def encode_def)

text \<open>
  The first step of \<^verbatim>\<open>FSD\<close> does what is claimed: any other ASCII reply to
  \<^verbatim>\<open>MASTER\<close> raises the "master level" error and nothing more is written.
\<close>

lemma FSD_not_granted:
  assumes "is_ascii ups"
    and "inbox st = l @ [NL] @ rest" and "NL \<notin> set l" and "is_ascii l"
    and "l \<noteq> ''OK MASTER-GRANTED''"
  shows "FSD ups st =
           (Inl (PyNUTError [ArgTuple [''Master level function are not available'', []]]),
            st\<lparr>sent := sent st @ [''MASTER '' @ ups @ [NL]], inbox := rest\<rparr>)"
  using assms
  by (simp add: FSD_def io_defs srv_write_def read_until_line decode_def encode_def)

lemma FSD_granted:
  assumes "is_ascii ups" and "inbox st = ''OK MASTER-GRANTED\<newline>'' @ rest"
  shows "FSD ups st = (Inl TypeError, st\<lparr>sent := sent st @ [''MASTER '' @ ups @ [NL]], inbox := rest\<rparr>)"
  using assms
  by (simp add: FSD_def io_defs srv_write_def srv_read_until_def decode_def encode_def)

section \<open>Device and client enumeration\<close>

text \<open>
  C3. When the server answers \<^verbatim>\<open>LIST UPS\<close> with the list block of the spec's
  scenario A, \<^verbatim>\<open>GetUPSList\<close> returns the dictionary
  \<^verbatim>\<open>{"ups1": "Desc one", "ups2": "Desc two"}\<close>, whatever was sent before and whatever
  follows the block.
\<close>

theorem GetUPSList_scenario_A:
  \<open>GetUPSList \<lparr>sent = s, inbox = ''BEGIN LIST UPS\<newline>UPS ups1 "Desc one"\<newline>UPS ups2 "Desc two"\<newline>END LIST UPS\<newline>'' @ rest\<rparr>
     = (Inr [(''ups1'', ''Desc one''), (''ups2'', ''Desc two'')],
        \<lparr>sent = s @ [''LIST UPS\<newline>''], inbox = rest\<rparr>)\<close>
  by (simp add: GetUPSList_def io_defs srv_write_def srv_read_until_def decode_def
        unpack2_def py_remove_def)

text \<open>
  C5. \<^verbatim>\<open>ListClients\<close> called without a device filter takes the default
  \<^verbatim>\<open>ups = None\<close>, and its first statement \<^verbatim>\<open>ups.encode('ascii')\<close> raises
  AttributeError on every session: nothing is sent and nothing is read.
\<close>

theorem ListClients_default_raises:
  "ListClients None st = (Inl AttributeError, st)"
  by (simp add: ListClients_def io_raise_def)

text \<open>
  With the empty string as the filter the method does run as the unfiltered request, and
  returns the mapping of the spec's scenario D with the hosts in the server's order.
\<close>

lemma ListClients_empty_filter_scenario_D:
  \<open>ListClients (Some []) \<lparr>sent = s, inbox = ''BEGIN LIST CLIENTS\<newline>CLIENT 10.0.0.1 dev1\<newline>CLIENT 10.0.0.2 dev1\<newline>END LIST CLIENTS\<newline>'' @ rest\<rparr>
     = (Inr [(''dev1'', [''10.0.0.1'', ''10.0.0.2''])],
        \<lparr>sent = s @ [''LIST CLIENTS\<newline>''], inbox = rest\<rparr>)\<close>
  by (simp add: ListClients_def io_defs srv_write_def srv_read_until_def decode_def encode_def
        unpack2_def dict_has_def)

section \<open>Variable enumeration\<close>

text \<open>
  C4. \<^verbatim>\<open>GetUPSVars\<close> for an ASCII device identifier: when the first reply line \<open>l\<close>
  (ASCII, terminated by a newline) is not \<^verbatim>\<open>BEGIN LIST VAR <dev>\<close>, the method raises
  nothing and returns the string \<^verbatim>\<open>"ERR"\<close> in place of a dictionary, having written
  the request and consumed that one line.
\<close>

theorem GetUPSVars_sentinel:
  assumes "is_ascii ups"
    and "inbox st = l @ [NL] @ rest" and "NL \<notin> set l" and "is_ascii l"
    and "l @ [NL] \<noteq> ''BEGIN LIST VAR '' @ ups @ [NL]"
  shows "GetUPSVars ups st =
           (Inr (VarsStr ''ERR''),
            st\<lparr>sent := sent st @ [''LIST VAR '' @ ups @ [NL]], inbox := rest\<rparr>)"
  using assms
  by (simp add: GetUPSVars_def io_defs srv_write_def read_until_line decode_def encode_def)

theorem GetUPSVars_sentinel_witness:
  "GetUPSVars ''ups1'' \<lparr>sent = [], inbox = ''ERR UNKNOWN-UPS\<newline>''\<rparr>
     = (Inr (VarsStr ''ERR''), \<lparr>sent = [''LIST VAR ups1\<newline>''], inbox = []\<rparr>)"
  using GetUPSVars_sentinel [of "''ups1''" "\<lparr>sent = [], inbox = ''ERR UNKNOWN-UPS\<newline>''\<rparr>"
      "''ERR UNKNOWN-UPS''" "[]"]
  by simp

section \<open>Reading a list block\<close>

lemma prefix_line_eq:
  "NL \<notin> set e \<Longrightarrow> NL \<notin> set l \<Longrightarrow> prefix (e @ [NL]) (l @ NL # t) \<Longrightarrow> e = l"
proof (induction e arbitrary: l)
  case Nil
  then show ?case by (cases l) auto
next
  case (Cons a e)
  then show ?case by (cases l) auto
qed

lemma read_upto_here: "m \<noteq> [] \<Longrightarrow> read_upto m (m @ rest) = Some (m, rest)"
  by (cases m) auto

lemma read_upto_skip_line:
  assumes "NL \<notin> set e" and "e \<noteq> []"
  shows "NL \<notin> set l \<Longrightarrow> \<not> suffix e l \<Longrightarrow>
         read_upto (e @ [NL]) (l @ NL # t) =
           (case read_upto (e @ [NL]) t of None \<Rightarrow> None | Some (b, r) \<Rightarrow> Some (l @ NL # b, r))"
proof (induction l)
  case Nil
  from assms have "\<not> prefix (e @ [NL]) (NL # t)" by (cases e) auto
  then show ?case by (simp split: option.splits)
next
  case (Cons c l)
  have "\<not> prefix (e @ [NL]) ((c # l) @ NL # t)"
  proof
    assume "prefix (e @ [NL]) ((c # l) @ NL # t)"
    with assms(1) Cons.prems(1) have "e = c # l" by (rule prefix_line_eq)
    with Cons.prems(2) show False by simp
  qed
  moreover from Cons.prems have "NL \<notin> set l" and "\<not> suffix e l"
    by (auto dest: suffix_ConsI)
  ultimately show ?case using Cons.IH by (simp split: option.splits)
qed

lemma read_upto_body:
  assumes "NL \<notin> set e" and "e \<noteq> []"
  shows "list_all (\<lambda>l. NL \<notin> set l \<and> \<not> suffix e l) body \<Longrightarrow>
         read_upto (e @ [NL]) (body_bytes body @ e @ [NL] @ rest) =
           Some (body_bytes body @ e @ [NL], rest)"
proof (induction body)
  case Nil
  show ?case using read_upto_here [of "e @ [NL]" rest] by (simp add: body_bytes_def)
next
  case (Cons l body)
  then have "NL \<notin> set l" and "\<not> suffix e l" by simp_all
  from read_upto_skip_line [OF assms this, of "body_bytes body @ e @ [NL] @ rest"] Cons
  show ?case by (simp add: body_bytes_def)
qed

lemma py_split_no_sep: "sep \<notin> set l \<Longrightarrow> py_split sep l = [l]"
  by (induction l) auto

lemma py_split_not_Nil: "py_split sep s \<noteq> []"
  by (induction s) (auto split: list.splits)

lemma py_split_line: "sep \<notin> set l \<Longrightarrow> py_split sep (l @ sep # s) = l # py_split sep s"
  by (induction l) (auto split: list.splits)

lemma py_split_lines:
  "list_all (\<lambda>l. NL \<notin> set l) ls \<Longrightarrow> NL \<notin> set x \<Longrightarrow>
   py_split NL (body_bytes ls @ x) = ls @ [x]"
  by (induction ls) (auto simp: body_bytes_def py_split_no_sep py_split_line)

lemma body_bytes_snoc: "body_bytes (ls @ [x]) = body_bytes ls @ x @ [NL]"
  by (simp add: body_bytes_def)

lemma block_lines:
  assumes "list_all (\<lambda>l. NL \<notin> set l) body"
  shows "py_split NL (take (length (body_bytes body @ e @ [NL]) - (length (e @ [NL]) + 1))
                         (body_bytes body @ e @ [NL]))
           = (if body = [] then [[]] else body)"
proof (cases body rule: rev_cases)
  case Nil
  then show ?thesis by (simp add: body_bytes_def)
next
  case (snoc ls x)
  with assms have "list_all (\<lambda>l. NL \<notin> set l) ls" and "NL \<notin> set x" by simp_all
  then have "py_split NL (body_bytes ls @ x) = ls @ [x]" by (rule py_split_lines)
  with snoc show ?thesis by (simp add: body_bytes_snoc)
qed

lemma is_ascii_body_bytes: "list_all is_ascii body \<Longrightarrow> is_ascii (body_bytes body)"
  by (induction body) (auto simp: body_bytes_def)

lemma framedD:
  assumes "framed kind body"
  shows "is_ascii kind" and "NL \<notin> set kind"
    and "list_all is_ascii body" and "list_all (\<lambda>l. NL \<notin> set l) body"
    and "list_all (\<lambda>l. NL \<notin> set l \<and> \<not> suffix (''END LIST '' @ kind) l) body"
  using assms by (auto simp: framed_def list_all_iff)

lemma read_block_begin:
  assumes "framed kind body" and "inbox st = list_block kind body @ rest"
  shows "srv_read_until (Bytes [NL]) st =
           (Inr (''BEGIN LIST '' @ kind @ [NL]),
            st\<lparr>inbox := body_bytes body @ ''END LIST '' @ kind @ [NL] @ rest\<rparr>)"
proof -
  from assms(1) have "NL \<notin> set (''BEGIN LIST '' @ kind)" by (simp add: framedD)
  moreover from assms(2) have "inbox st = (''BEGIN LIST '' @ kind) @ NL #
      (body_bytes body @ ''END LIST '' @ kind @ [NL] @ rest)"
    by (simp add: list_block_def)
  ultimately show ?thesis by (simp only: read_until_line append_assoc)
qed

lemma read_block_end:
  assumes "framed kind body"
    and "inbox st = body_bytes body @ ''END LIST '' @ kind @ [NL] @ rest"
  shows "srv_read_until (Bytes (''END LIST '' @ kind @ [NL])) st =
           (Inr (body_bytes body @ ''END LIST '' @ kind @ [NL]), st\<lparr>inbox := rest\<rparr>)"
proof -
  let ?e = "''END LIST '' @ kind"
  from assms(1) have "NL \<notin> set ?e" and "?e \<noteq> []" by (simp_all add: framedD)
  from read_upto_body [OF this framedD(5) [OF assms(1)], of rest] assms(2)
  show ?thesis by (simp add: srv_read_until_def)
qed

lemma block_decode:
  assumes "framed kind body"
  shows "decode (body_bytes body @ ''END LIST '' @ kind @ [NL]) =
           Inr (body_bytes body @ ''END LIST '' @ kind @ [NL])"
  using framedD(1,3) [OF assms] by (simp add: decode_def is_ascii_body_bytes)

text \<open>
  C10. \<^verbatim>\<open>GetUPSVars\<close> on a framed list block with no body line (a device without
  variables): slicing leaves the empty string, whose split is the one empty line, and
  \<^verbatim>\<open>split('"')[1]\<close> on it raises IndexError, which is not a PyNUTError. No mapping is
  returned.
\<close>

theorem GetUPSVars_empty_block:
  assumes "framed (''VAR '' @ ups) []"
    and "inbox st = list_block (''VAR '' @ ups) [] @ rest"
  shows "GetUPSVars ups st =
           (Inl IndexError, st\<lparr>sent := sent st @ [''LIST VAR '' @ ups @ [NL]], inbox := rest\<rparr>)"
proof -
  let ?k = "''VAR '' @ ups"
  define st1 where "st1 = st\<lparr>sent := sent st @ [''LIST VAR '' @ ups @ [NL]]\<rparr>"
  define st2 where "st2 = st1\<lparr>inbox := body_bytes [] @ ''END LIST '' @ ?k @ [NL] @ rest\<rparr>"
  have asc: "is_ascii ups" using framedD(1) [OF assms(1)] by simp
  have w: "srv_write (Bytes (''LIST VAR '' @ ups @ [NL])) st = (Inr (), st1)"
    by (simp add: srv_write_def st1_def)
  have "inbox st1 = list_block ?k [] @ rest" using assms(2) by (simp add: st1_def)
  from read_block_begin [OF assms(1) this]
  have r1: "srv_read_until (Bytes [NL]) st1 = (Inr (''BEGIN LIST '' @ ?k @ [NL]), st2)"
    by (simp add: st2_def)
  have "inbox st2 = body_bytes [] @ ''END LIST '' @ ?k @ [NL] @ rest" by (simp add: st2_def)
  from read_block_end [OF assms(1) this]
  have r2: "srv_read_until (Bytes (''END LIST '' @ ?k @ [NL])) st2 =
              (Inr (body_bytes [] @ ''END LIST '' @ ?k @ [NL]), st2\<lparr>inbox := rest\<rparr>)" .
  show ?thesis
    using asc w r1 r2
    by (simp add: GetUPSVars_def io_defs encode_def decode_def body_bytes_def index_def
        st1_def st2_def)
qed

theorem GetUPSVars_empty_block_witness:
  "GetUPSVars ''ups1'' \<lparr>sent = [], inbox = ''BEGIN LIST VAR ups1\<newline>END LIST VAR ups1\<newline>''\<rparr>
     = (Inl IndexError, \<lparr>sent = [''LIST VAR ups1\<newline>''], inbox = []\<rparr>)"
  using GetUPSVars_empty_block [of "''ups1''"
      "\<lparr>sent = [], inbox = ''BEGIN LIST VAR ups1\<newline>END LIST VAR ups1\<newline>''\<rparr>" "[]"]
  by (simp add: framed_def list_block_def body_bytes_def)

section \<open>Writable variables\<close>

lemma py_split_record:
  assumes "DQ \<notin> set a" and "DQ \<notin> set v"
  shows "py_split DQ (a @ DQ # v @ [DQ]) = [a, v, []]"
proof -
  have "py_split DQ (v @ DQ # []) = v # py_split DQ []" using assms(2) by (rule py_split_line)
  with py_split_line [OF assms(1), of "v @ [DQ]"] show ?thesis by simp
qed

lemma var_loop_line:
  assumes "clean_pair p" and "n = length (''VAR '' @ ups)"
  shows "var_loop n (var_line ups p # ls) d = var_loop n ls (dict_set (fst p) (snd p) d)"
proof -
  have d: "drop n (var_line ups p) = (SP # fst p @ [SP]) @ DQ # snd p @ [DQ]"
    by (simp add: var_line_def assms(2))
  from assms(1) have "DQ \<notin> set (SP # fst p @ [SP])" and "DQ \<notin> set (snd p)"
    by (simp_all add: clean_pair_def)
  then have s: "py_split DQ ((SP # fst p @ [SP]) @ DQ # snd p @ [DQ]) = [SP # fst p @ [SP], snd p, []]"
    by (rule py_split_record)
  from assms(1) have r: "py_remove SP (SP # fst p @ [SP]) = fst p"
    by (auto simp: py_remove_def clean_pair_def filter_id_conv)
  show ?thesis
    unfolding var_loop.simps d s by (simp add: index_def r)
qed

lemma var_loop_good:
  assumes "n = length (''VAR '' @ ups)"
  shows "list_all clean_pair ps \<Longrightarrow>
         var_loop n (map (var_line ups) ps @ ls) d = var_loop n ls (var_pairs d ps)"
proof (induction ps arbitrary: d)
  case Nil
  show ?case by (simp add: var_pairs_def)
next
  case (Cons p ps)
  then have p: "clean_pair p" and ps: "list_all clean_pair ps" by simp_all
  have "var_loop n (map (var_line ups) (p # ps) @ ls) d
          = var_loop n (map (var_line ups) ps @ ls) (dict_set (fst p) (snd p) d)"
    using var_loop_line [OF p assms] by simp
  also have "\<dots> = var_loop n ls (var_pairs (dict_set (fst p) (snd p) d) ps)"
    using ps by (rule Cons.IH)
  finally show ?case by (simp add: var_pairs_def)
qed

lemma var_loop_bad:
  assumes "DQ \<notin> set (drop offset bad)"
  shows "var_loop offset (bad # post) d = (Some IndexError, d)"
  using py_split_no_sep [OF assms] by (simp add: index_def)

lemma GetRWVars_framed:
  assumes "framed (''RW '' @ ups) body"
    and "inbox st = list_block (''RW '' @ ups) body @ rest"
  shows "GetRWVars ups st =
           (Inr (snd (var_loop (length (''VAR '' @ ups)) (if body = [] then [[]] else body) [])),
            st\<lparr>sent := sent st @ [''LIST RW '' @ ups @ [NL]], inbox := rest\<rparr>)"
proof -
  let ?k = "''RW '' @ ups"
  let ?buf = "body_bytes body @ ''END LIST '' @ ?k @ [NL]"
  define st1 where "st1 = st\<lparr>sent := sent st @ [''LIST RW '' @ ups @ [NL]]\<rparr>"
  define st2 where "st2 = st1\<lparr>inbox := ?buf @ rest\<rparr>"
  have asc: "is_ascii ups" using framedD(1) [OF assms(1)] by simp
  have w: "srv_write (Bytes (''LIST RW '' @ ups @ [NL])) st = (Inr (), st1)"
    by (simp add: srv_write_def st1_def)
  have "inbox st1 = list_block ?k body @ rest" using assms(2) by (simp add: st1_def)
  from read_block_begin [OF assms(1) this]
  have r1: "srv_read_until (Bytes [NL]) st1 = (Inr (''BEGIN LIST '' @ ?k @ [NL]), st2)"
    by (simp add: st2_def)
  have "inbox st2 = body_bytes body @ ''END LIST '' @ ?k @ [NL] @ rest" by (simp add: st2_def)
  from read_block_end [OF assms(1) this]
  have r2: "srv_read_until (Bytes (''END LIST '' @ ?k @ [NL])) st2 = (Inr ?buf, st2\<lparr>inbox := rest\<rparr>)" .
  have dec: "decode ?buf = Inr ?buf" using assms(1) by (rule block_decode)
  have lines: "py_split NL (take (length ?buf - (length (''END LIST '' @ ?k @ [NL]) + 1)) ?buf)
                 = (if body = [] then [[]] else body)"
    using block_lines [OF framedD(4) [OF assms(1)], of "''END LIST '' @ ?k"] by simp
  show ?thesis
    using asc w r1 r2 dec lines
    by (simp add: GetRWVars_def io_defs encode_def decode_def st1_def st2_def
        split: prod.splits del: var_loop.simps)
qed

text \<open>
  C6, as the code has it. \<^verbatim>\<open>GetRWVars\<close> on a framed list block whose body is some
  well-formed record lines, then a line with no quote character after the prefix, then
  any lines: the IndexError of the malformed line is suppressed and the method returns a
  mapping, which holds the pairs of the record lines before the malformed line and
  nothing of what follows it.
\<close>

theorem GetRWVars_stops_at_malformed:
  assumes "framed (''RW '' @ ups) (map (var_line ups) good @ bad # post)"
    and "inbox st = list_block (''RW '' @ ups) (map (var_line ups) good @ bad # post) @ rest"
    and "list_all clean_pair good"
    and "DQ \<notin> set (drop (length (''VAR '' @ ups)) bad)"
  shows "GetRWVars ups st =
           (Inr (var_pairs [] good),
            st\<lparr>sent := sent st @ [''LIST RW '' @ ups @ [NL]], inbox := rest\<rparr>)"
proof -
  have "var_loop (length (''VAR '' @ ups)) (map (var_line ups) good @ bad # post) []
          = (Some IndexError, var_pairs [] good)"
    using var_loop_good [OF refl assms(3), where ups = ups and ls = "bad # post" and d = "[]"]
      var_loop_bad [OF assms(4), of post "var_pairs [] good"] by simp
  with GetRWVars_framed [OF assms(1,2)] show ?thesis by simp
qed

theorem GetRWVars_stops_at_malformed_witness:
  \<open>GetRWVars ''u'' \<lparr>sent = [], inbox = ''BEGIN LIST RW u\<newline>VAR u a "1"\<newline>VAR u bad\<newline>VAR u b "2"\<newline>END LIST RW u\<newline>''\<rparr>
     = (Inr [(''a'', ''1'')], \<lparr>sent = [''LIST RW u\<newline>''], inbox = []\<rparr>)\<close>
  using GetRWVars_stops_at_malformed [of "''u''" "[(''a'', ''1'')]" "''VAR u bad''"
      "[''VAR u b '' @ [DQ] @ ''2'' @ [DQ]]"
      \<open>\<lparr>sent = [], inbox = ''BEGIN LIST RW u\<newline>VAR u a "1"\<newline>VAR u bad\<newline>VAR u b "2"\<newline>END LIST RW u\<newline>''\<rparr>\<close> "[]"]
  by (simp add: framed_def list_block_def body_bytes_def var_line_def clean_pair_def
      var_pairs_def suffix_to_prefix)

text \<open>
  The claim C6 as stated fails: a well-formed record line that follows a malformed one
  contributes nothing to the mapping.
\<close>

theorem GetRWVars_skip_counterexample:
  \<open>\<not> (\<exists>d st'. GetRWVars ''u'' \<lparr>sent = [], inbox = ''BEGIN LIST RW u\<newline>VAR u bad\<newline>VAR u a "1"\<newline>END LIST RW u\<newline>''\<rparr> = (Inr d, st')
        \<and> map_of d ''a'' = Some ''1'')\<close>
proof -
  have \<open>GetRWVars ''u'' \<lparr>sent = [], inbox = ''BEGIN LIST RW u\<newline>VAR u bad\<newline>VAR u a "1"\<newline>END LIST RW u\<newline>''\<rparr>
          = (Inr [], \<lparr>sent = [''LIST RW u\<newline>''], inbox = []\<rparr>)\<close>
    by (simp add: GetRWVars_def io_defs srv_write_def srv_read_until_def decode_def encode_def
        index_def)
  then show ?thesis by simp
qed

text \<open>Without a malformed line every record line contributes its pair.\<close>

lemma GetRWVars_all_well_formed:
  assumes "framed (''RW '' @ ups) (map (var_line ups) good)"
    and "inbox st = list_block (''RW '' @ ups) (map (var_line ups) good) @ rest"
    and "list_all clean_pair good"
  shows "GetRWVars ups st =
           (Inr (var_pairs [] good),
            st\<lparr>sent := sent st @ [''LIST RW '' @ ups @ [NL]], inbox := rest\<rparr>)"
proof (cases "good = []")
  case True
  with GetRWVars_framed [OF assms(1,2)] show ?thesis
    by (simp add: index_def var_pairs_def)
next
  case False
  moreover have "var_loop (length (''VAR '' @ ups)) (map (var_line ups) good @ []) []
          = (None, var_pairs [] good)"
    using var_loop_good [OF refl assms(3), where ups = ups and ls = "[]" and d = "[]"] by simp
  ultimately show ?thesis using GetRWVars_framed [OF assms(1,2)] by simp
qed

section \<open>Command enumeration\<close>

lemma cmddesc_raises: "\<exists>e st'. cmddesc ups ups_ascii var st = (Inl e, st')"
  by (auto simp: cmddesc_def io_defs srv_write_def srv_read_until_def encode_def
      split: option.splits)

lemma cmddesc_caught:
  "\<exists>st'. io_try (cmddesc ups ups_ascii var) (\<lambda>e. io_return var) st = (Inr var, st')"
proof -
  from cmddesc_raises obtain e st' where "cmddesc ups ups_ascii var st = (Inl e, st')"
    by blast
  then show ?thesis by (simp add: io_try_def io_return_def)
qed

lemma index_0: "index (py_split sep s) 0 = Inr (hd (py_split sep s))"
  using py_split_not_Nil [of sep s] by (cases "py_split sep s") (simp_all add: index_def)

lemma cmd_loop_names:
  assumes "n = length (''CMD '' @ ups @ '' '')"
  shows "\<exists>st'. cmd_loop ups ups_ascii n ls d st = (Inr (cmd_names ups d ls), st')"
proof (induction ls arbitrary: d st)
  case Nil
  show ?case by (simp add: cmd_names_def)
next
  case (Cons l ls)
  let ?v = "cmd_name ups l"
  from cmddesc_caught obtain st1 where
    t: "io_try (cmddesc ups ups_ascii ?v) (\<lambda>e. io_return ?v) st = (Inr ?v, st1)" by blast
  from Cons.IH obtain st2 where
    "cmd_loop ups ups_ascii n ls (dict_set ?v ?v d) st1 = (Inr (cmd_names ups (dict_set ?v ?v d) ls), st2)"
    by blast
  with t have "cmd_loop ups ups_ascii n (l # ls) d st = (Inr (cmd_names ups d (l # ls)), st2)"
    by (simp add: index_0 cmd_name_def cmd_names_def assms Let_def)
  then show ?case by blast
qed

lemma set_dict_set: "set (dict_set k v d) \<subseteq> insert (k, v) (set d)"
  by (induction d) (auto split: if_splits)

lemma keys_dict_set: "fst ` set (dict_set k v d) = insert k (fst ` set d)"
proof (induction d)
  case Nil
  show ?case by simp
next
  case (Cons p d)
  obtain a b where p: "p = (a, b)" by (cases p)
  show ?case
  proof (cases "a = k")
    case True
    with p show ?thesis by auto
  next
    case False
    with p Cons.IH show ?thesis by (simp add: insert_commute)
  qed
qed

lemma cmd_names_diag:
  "\<forall>(k, v)\<in>set d. v = k \<Longrightarrow> \<forall>(k, v)\<in>set (cmd_names ups d ls). v = k"
proof (induction ls arbitrary: d)
  case Nil
  then show ?case by (simp add: cmd_names_def)
next
  case (Cons l ls)
  have "\<forall>(k, v)\<in>set (dict_set (cmd_name ups l) (cmd_name ups l) d). v = k"
    using Cons.prems set_dict_set [of "cmd_name ups l" "cmd_name ups l" d] by auto
  from Cons.IH [OF this] show ?case by (simp add: cmd_names_def)
qed

lemma cmd_names_keys:
  "fst ` set (cmd_names ups d ls) = fst ` set d \<union> cmd_name ups ` set ls"
proof (induction ls arbitrary: d)
  case Nil
  show ?case by (simp add: cmd_names_def)
next
  case (Cons l ls)
  have "fst ` set (cmd_names ups (dict_set (cmd_name ups l) (cmd_name ups l) d) ls)
          = fst ` set (dict_set (cmd_name ups l) (cmd_name ups l) d) \<union> cmd_name ups ` set ls"
    by (rule Cons.IH)
  then show ?case by (simp add: cmd_names_def keys_dict_set)
qed

lemma cmd_name_line:
  assumes "DQ \<notin> set name" and "SP \<notin> set name"
  shows "cmd_name ups (''CMD '' @ ups @ '' '' @ name) = name"
proof -
  have "drop (length (''CMD '' @ ups @ '' '')) (''CMD '' @ ups @ '' '' @ name) = name" by simp
  moreover have "py_split DQ name = [name]" using assms(1) by (rule py_split_no_sep)
  moreover have "py_remove SP name = name"
    using assms(2) by (auto simp: py_remove_def filter_id_conv)
  ultimately show ?thesis by (simp add: cmd_name_def)
qed

text \<open>
  C9. \<^verbatim>\<open>GetUPSCommands\<close> on a framed list block, whatever bytes \<open>rest\<close> the server
  sends after it in answer to the \<^verbatim>\<open>GET CMDDESC\<close> requests: the method returns a
  mapping, every entry of the mapping has the command name itself as its description, and
  the keys are the names computed from the body lines (from the one empty line when the
  body is empty).
\<close>

theorem GetUPSCommands_desc_is_name:
  assumes "framed (''CMD '' @ ups) body"
    and "inbox st = list_block (''CMD '' @ ups) body @ rest"
  shows "\<exists>d st'. GetUPSCommands ups st = (Inr d, st')
           \<and> (\<forall>(k, v)\<in>set d. v = k)
           \<and> fst ` set d = cmd_name ups ` set (if body = [] then [[]] else body)"
proof -
  let ?k = "''CMD '' @ ups"
  let ?buf = "body_bytes body @ ''END LIST '' @ ?k @ [NL]"
  let ?ls = "if body = [] then [[]] else body"
  define st1 where "st1 = st\<lparr>sent := sent st @ [''LIST CMD '' @ ups @ [NL]]\<rparr>"
  define st2 where "st2 = st1\<lparr>inbox := ?buf @ rest\<rparr>"
  define st3 where "st3 = st2\<lparr>inbox := rest\<rparr>"
  have asc: "is_ascii ups" using framedD(1) [OF assms(1)] by simp
  have w: "srv_write (Bytes (''LIST CMD '' @ ups @ [NL])) st = (Inr (), st1)"
    by (simp add: srv_write_def st1_def)
  have "inbox st1 = list_block ?k body @ rest" using assms(2) by (simp add: st1_def)
  from read_block_begin [OF assms(1) this]
  have r1: "srv_read_until (Bytes [NL]) st1 = (Inr (''BEGIN LIST '' @ ?k @ [NL]), st2)"
    by (simp add: st2_def)
  have "inbox st2 = body_bytes body @ ''END LIST '' @ ?k @ [NL] @ rest" by (simp add: st2_def)
  from read_block_end [OF assms(1) this]
  have r2: "srv_read_until (Bytes (''END LIST '' @ ?k @ [NL])) st2 = (Inr ?buf, st3)"
    by (simp add: st3_def)
  have dec: "decode ?buf = Inr ?buf" using assms(1) by (rule block_decode)
  have lines: "py_split NL (take (length ?buf - (length (''END LIST '' @ ?k @ [NL]) + 1)) ?buf) = ?ls"
    using block_lines [OF framedD(4) [OF assms(1)], of "''END LIST '' @ ?k"] by simp
  from cmd_loop_names [OF refl, of ups ups ?ls "[]" st3] obtain st' where
    loop: "cmd_loop ups ups (length (''CMD '' @ ups @ '' '')) ?ls [] st3 = (Inr (cmd_names ups [] ?ls), st')"
    by blast
  have "GetUPSCommands ups st = (Inr (cmd_names ups [] ?ls), st')"
    using asc w r1 r2 dec lines loop
    by (simp add: GetUPSCommands_def io_defs encode_def decode_def del: cmd_loop.simps)
  moreover have "\<forall>(k, v)\<in>set (cmd_names ups [] ?ls). v = k"
    by (rule cmd_names_diag) simp
  moreover have "fst ` set (cmd_names ups [] ?ls) = cmd_name ups ` set ?ls"
    by (simp add: cmd_names_keys)
  ultimately show ?thesis by blast
qed

theorem GetUPSCommands_desc_is_name_witness:
  \<open>\<exists>d st'. GetUPSCommands ''u'' \<lparr>sent = [], inbox = ''BEGIN LIST CMD u\<newline>CMD u beeper.on\<newline>CMD u load.off\<newline>END LIST CMD u\<newline>CMDDESC u beeper.on "Enable the beeper"\<newline>CMDDESC u load.off "Turn off the load"\<newline>''\<rparr> = (Inr d, st')
      \<and> (\<forall>(k, v)\<in>set d. v = k)
      \<and> fst ` set d = {''beeper.on'', ''load.off''}\<close>
  using GetUPSCommands_desc_is_name [of "''u''" "[''CMD u beeper.on'', ''CMD u load.off'']"
      \<open>\<lparr>sent = [], inbox = ''BEGIN LIST CMD u\<newline>CMD u beeper.on\<newline>CMD u load.off\<newline>END LIST CMD u\<newline>CMDDESC u beeper.on "Enable the beeper"\<newline>CMDDESC u load.off "Turn off the load"\<newline>''\<rparr>\<close>
      \<open>''CMDDESC u beeper.on "Enable the beeper"\<newline>CMDDESC u load.off "Turn off the load"\<newline>''\<close>]
    cmd_name_line [of "''beeper.on''" "''u''"] cmd_name_line [of "''load.off''" "''u''"]
  by (simp add: framed_def list_block_def body_bytes_def suffix_to_prefix)

text \<open>A server that does answer with a description: the name is stored all the same.\<close>

lemma GetUPSCommands_with_descriptions:
  \<open>GetUPSCommands ''u'' \<lparr>sent = [], inbox = ''BEGIN LIST CMD u\<newline>CMD u beeper.on\<newline>END LIST CMD u\<newline>CMDDESC u beeper.on "Enable the beeper"\<newline>''\<rparr>
     = (Inr [(''beeper.on'', ''beeper.on'')],
        \<lparr>sent = [''LIST CMD u\<newline>'', ''GET CMDDESC ubeeper.on\<newline>''], inbox = []\<rparr>)\<close>
  by (simp add: GetUPSCommands_def io_defs srv_write_def srv_read_until_def decode_def encode_def
      index_def cmddesc_def py_remove_def Let_def)

section \<open>Validation of the device filter\<close>

lemma srv_read_until_sent: "srv_read_until m st = (r, st') \<Longrightarrow> sent st' = sent st"
  by (auto simp: srv_read_until_def split: pyval.splits option.splits)

lemma GetUPSList_sent:
  assumes "GetUPSList st = (r, st')"
  shows "sent st' = sent st @ [''LIST UPS\<newline>'']"
proof -
  define st1 where "st1 = st\<lparr>sent := sent st @ [''LIST UPS\<newline>'']\<rparr>"
  have w: "srv_write (Bytes ''LIST UPS\<newline>'') st = (Inr (), st1)"
    by (simp add: srv_write_def st1_def)
  obtain r1 st2 where r1: "srv_read_until (Bytes ''\<newline>'') st1 = (r1, st2)" by force
  then have s2: "sent st2 = sent st1" by (rule srv_read_until_sent)
  obtain r2 st3 where r2: "srv_read_until (Bytes ''END LIST UPS\<newline>'') st2 = (r2, st3)" by force
  then have s3: "sent st3 = sent st2" by (rule srv_read_until_sent)
  have "st' = st2 \<or> st' = st3"
    using assms w r1 r2
    by (auto simp: GetUPSList_def io_defs split: sum.splits if_splits)
  with s2 s3 show ?thesis by (auto simp: st1_def)
qed

text \<open>
  C1, as the code has it. For a non-empty ASCII device filter, \<^verbatim>\<open>ListClients\<close>
  first runs \<^verbatim>\<open>GetUPSList\<close> on the same transport. When that enumeration returns a
  mapping without the filter as a key, \<^verbatim>\<open>ListClients\<close> raises PyNUTError with the
  text \<^verbatim>\<open><filter> is not a valid UPS\<close>, in the session state the enumeration left:
  the request \<^verbatim>\<open>LIST UPS\<close> has been written, and no \<^verbatim>\<open>LIST CLIENTS\<close> request.
\<close>

theorem ListClients_unknown_filter:
  assumes "is_ascii ups" and "ups \<noteq> []"
    and "GetUPSList st = (Inr ups_list, st')" and "\<not> dict_has ups ups_list"
  shows "ListClients (Some ups) st =
           (Inl (PyNUTError [ArgStr (ups @ '' is not a valid UPS'')]), st')
         \<and> sent st' = sent st @ [''LIST UPS\<newline>'']"
  using assms GetUPSList_sent [OF assms(3)]
  by (simp add: ListClients_def io_defs encode_def)

theorem ListClients_unknown_filter_witness:
  \<open>ListClients (Some ''ups9'') \<lparr>sent = [], inbox = ''BEGIN LIST UPS\<newline>UPS ups1 "Desc one"\<newline>END LIST UPS\<newline>''\<rparr>
     = (Inl (PyNUTError [ArgStr ''ups9 is not a valid UPS'']),
        \<lparr>sent = [''LIST UPS\<newline>''], inbox = []\<rparr>)\<close>
proof -
  have g: \<open>GetUPSList \<lparr>sent = [], inbox = ''BEGIN LIST UPS\<newline>UPS ups1 "Desc one"\<newline>END LIST UPS\<newline>''\<rparr>
     = (Inr [(''ups1'', ''Desc one'')], \<lparr>sent = [''LIST UPS\<newline>''], inbox = []\<rparr>)\<close>
    by (simp add: GetUPSList_def io_defs srv_write_def srv_read_until_def decode_def
        unpack2_def py_remove_def)
  have a: "is_ascii ''ups9''" and n: "''ups9'' \<noteq> []"
    and h: "\<not> dict_has ''ups9'' [(''ups1'', ''Desc one'')]"
    by (simp_all add: dict_has_def)
  from ListClients_unknown_filter [OF a n g h] show ?thesis by simp
qed

text \<open>
  The claim C1 as stated fails: the filter \<^verbatim>\<open>ups9\<close> is not a key of the enumerated
  mapping and the call fails with the validation error, but bytes have been written to
  the transport by then.
\<close>

theorem ListClients_validation_counterexample:
  \<open>fst (GetUPSList \<lparr>sent = [], inbox = ''BEGIN LIST UPS\<newline>UPS ups1 "Desc one"\<newline>END LIST UPS\<newline>''\<rparr>)
      = Inr [(''ups1'', ''Desc one'')]
   \<and> \<not> dict_has ''ups9'' [(''ups1'', ''Desc one'')]
   \<and> fst (ListClients (Some ''ups9'') \<lparr>sent = [], inbox = ''BEGIN LIST UPS\<newline>UPS ups1 "Desc one"\<newline>END LIST UPS\<newline>''\<rparr>)
      = Inl (PyNUTError [ArgStr ''ups9 is not a valid UPS''])
   \<and> sent (snd (ListClients (Some ''ups9'') \<lparr>sent = [], inbox = ''BEGIN LIST UPS\<newline>UPS ups1 "Desc one"\<newline>END LIST UPS\<newline>''\<rparr>))
      \<noteq> []\<close>
  by (simp add: ListClients_def GetUPSList_def io_defs srv_write_def srv_read_until_def
      decode_def encode_def unpack2_def py_remove_def dict_has_def)

text \<open>The empty filter is not validated at all: it is the unfiltered request.\<close>

lemma ListClients_empty_filter_not_validated:
  \<open>ListClients (Some []) \<lparr>sent = s, inbox = ''BEGIN LIST CLIENTS\<newline>END LIST CLIENTS\<newline>'' @ rest\<rparr>
     = (Inr [], \<lparr>sent = s @ [''LIST CLIENTS\<newline>''], inbox = rest\<rparr>)\<close>
  by (simp add: ListClients_def io_defs srv_write_def srv_read_until_def decode_def encode_def)

end
